theory Spec2Isabelle
  imports Main "HOL-Library.Sublist"
begin

section \<open>Strings and numbers of the host language\<close>

text \<open>
  A JavaScript string is a sequence of UTF-16 code units; \<open>length\<close>, the regular
  expressions without the \<open>u\<close> flag and \<open>trim\<close> all work on code units. A code unit is
  modelled as an integer. ASCII text of the source is written as an Isabelle string
  and converted with \<open>ascii\<close>; Korean text is given by its code units.
\<close>

type_synonym jsstring = "int list"

definition ascii :: "string \<Rightarrow> jsstring" where
  "ascii s = map of_char s"

text \<open>JavaScript truthiness of a string: every string but the empty one.\<close>

definition truthy :: "jsstring \<Rightarrow> bool" where
  "truthy s = (s \<noteq> [])"

text \<open>Truthiness of \<open>string | null\<close> and \<open>string | undefined\<close>.\<close>

definition truthy_opt :: "jsstring option \<Rightarrow> bool" where
  "truthy_opt v = (case v of None \<Rightarrow> False | Some s \<Rightarrow> truthy s)"

text \<open>\<open>a || b\<close> on strings.\<close>

definition or_else :: "jsstring \<Rightarrow> jsstring \<Rightarrow> jsstring" where
  "or_else a b = (if truthy a then a else b)"

text \<open>\<open>a || b\<close> where \<open>a\<close> may be \<open>null\<close> or \<open>undefined\<close>.\<close>

definition opt_or_else :: "jsstring option \<Rightarrow> jsstring \<Rightarrow> jsstring" where
  "opt_or_else a b = (case a of None \<Rightarrow> b | Some s \<Rightarrow> or_else s b)"

text \<open>
  The remainder operator \<open>%\<close> on integral numbers: the result has the sign of the
  dividend.
\<close>

definition js_rem :: "int \<Rightarrow> int \<Rightarrow> int" where
  "js_rem a b = sgn a * (\<bar>a\<bar> mod \<bar>b\<bar>)"

text \<open>\<open>Array.prototype.indexOf\<close>: the first index holding the value, or \<open>-1\<close>.\<close>

fun indexOf :: "'a list \<Rightarrow> 'a \<Rightarrow> int" where
  "indexOf [] x = - 1"
| "indexOf (y # ys) x =
     (if y = x then 0 else (let i = indexOf ys x in if i < 0 then - 1 else i + 1))"

section \<open>Types of the application\<close>

datatype FontFamily = Font_basic | Font_cute | Font_hand | Font_dongle | Font_gamja | Font_poor

datatype FontSize = Size_x_small | Size_small | Size_medium | Size_large | Size_x_large

datatype DrawingLevel = Level_low | Level_medium | Level_high

text \<open>
  \<open>WritingGrade\<close> is the number type \<open>1 | 2 | 3 | 4 | 5 | 6\<close>; at run time it is a plain
  number, so it is an integer here and \<open>valid_grade\<close> says that it is one of the six.
\<close>

type_synonym WritingGrade = int

definition valid_grade :: "WritingGrade \<Rightarrow> bool" where
  "valid_grade g = (1 \<le> g \<and> g \<le> 6)"

record StoryStyleConfig =
  fontFamily :: FontFamily
  fontSize :: FontSize
  drawingLevel :: "DrawingLevel option"
  writingGrade :: "WritingGrade option"

text \<open>The field \<open>id\<close> of the source is \<open>entryId\<close> here.\<close>

record StoryEntry =
  entryId :: jsstring
  videoUrl :: jsstring
  videoId :: jsstring
  title :: jsstring
  summary :: jsstring
  favoriteScene :: jsstring
  thoughts :: jsstring
  generatedImageUrl :: "jsstring option"
  styleConfig :: "StoryStyleConfig option"
  createdAt :: int

record YouTubeAnalysisResult =
  result_title :: jsstring
  result_summary :: jsstring
  recommendedScene :: jsstring
  recommendedThoughts :: jsstring

section \<open>Style toggles (StoryForm)\<close>

definition fonts :: "FontFamily list" where
  "fonts = [Font_basic, Font_cute, Font_hand, Font_dongle, Font_gamja, Font_poor]"

definition sizes :: "FontSize list" where
  "sizes = [Size_x_small, Size_small, Size_medium, Size_large, Size_x_large]"

definition levels :: "DrawingLevel list" where
  "levels = [Level_low, Level_medium, Level_high]"

text \<open>
  Each toggle computes \<open>(indexOf + 1) % length\<close> and reads the array there. The index is
  never negative and below the length (lemma \<open>next_index_in_range\<close>), so the read never
  leaves the array. The parameter \<open>current\<close> is the option's state variable
  (\<open>fontFamily\<close>, \<open>fontSize\<close>, \<open>drawingLevel\<close>, \<open>writingGrade\<close>).
\<close>

definition next_index :: "'a list \<Rightarrow> 'a \<Rightarrow> int" where
  "next_index xs x = js_rem (indexOf xs x + 1) (int (length xs))"

definition toggleFontFamily :: "FontFamily \<Rightarrow> FontFamily" where
  "toggleFontFamily current = fonts ! nat (next_index fonts current)"

definition toggleFontSize :: "FontSize \<Rightarrow> FontSize" where
  "toggleFontSize current = sizes ! nat (next_index sizes current)"

definition toggleDrawingLevel :: "DrawingLevel \<Rightarrow> DrawingLevel" where
  "toggleDrawingLevel current = levels ! nat (next_index levels current)"

definition toggleWritingGrade :: "WritingGrade \<Rightarrow> WritingGrade" where
  "toggleWritingGrade current = js_rem current 6 + 1"

section \<open>The entry store (App)\<close>

definition handleSaveEntry :: "StoryEntry \<Rightarrow> StoryEntry list \<Rightarrow> StoryEntry list" where
  "handleSaveEntry entry prev =
     (case find (\<lambda>e. entryId e = entryId entry) prev of
        Some exists \<Rightarrow> map (\<lambda>e. if entryId e = entryId entry then entry else e) prev
      | None \<Rightarrow> entry # prev)"

text \<open>
  \<open>handleDeleteEntry\<close> asks \<open>window.confirm\<close> first; the answer is the parameter
  \<open>confirmed\<close>.
\<close>

definition handleDeleteEntry :: "bool \<Rightarrow> jsstring \<Rightarrow> StoryEntry list \<Rightarrow> StoryEntry list" where
  "handleDeleteEntry confirmed i prev =
     (if confirmed then filter (\<lambda>entry. entryId entry \<noteq> i) prev else prev)"


text \<open>An entry with a given id and title, everything else empty; used in examples.\<close>

definition sample_entry :: "jsstring \<Rightarrow> jsstring \<Rightarrow> StoryEntry" where
  "sample_entry i t =
     \<lparr>entryId = i, videoUrl = [], videoId = [], title = t, summary = [],
      favoriteScene = [], thoughts = [], generatedImageUrl = None, styleConfig = None,
      createdAt = 0\<rparr>"

section \<open>The workspace editor (StoryWorkspace)\<close>

text \<open>
  The state and the properties of the component that \<open>getCurrentEntry\<close> reads: the four
  edited texts, the generated image (\<open>string | null\<close>), the identity of the loaded entry
  and the four style options passed down by the application.
\<close>

record Workspace =
  ws_title :: jsstring
  ws_summary :: jsstring
  ws_favoriteScene :: jsstring
  ws_thoughts :: jsstring
  ws_generatedImage :: "jsstring option"
  ws_loadedId :: "jsstring option"
  ws_loadedVideoUrl :: jsstring
  ws_loadedVideoId :: jsstring
  ws_fontFamily :: FontFamily
  ws_fontSize :: FontSize
  ws_drawingLevel :: DrawingLevel
  ws_writingGrade :: WritingGrade

text \<open>
  The string literals of \<open>getCurrentEntry\<close>, code unit by code unit as the source file
  holds them. (The file stores its Korean literals in a damaged encoding: each is the
  UTF-8 byte sequence of the Korean text read as Windows-1252 characters, so the title
  placeholder starts U+00EC U+00A0 U+0153 where the Korean text starts U+C81C.)
\<close>

definition scene_caption :: jsstring where
  "scene_caption =
     [65, 73, 234, 176, 8364, 32, 236, 164, 8222, 234, 177, 176, 235, 166, 172, 235, 165,
      188, 32, 235, 176, 8221, 237, 402, 8226, 236, 339, 188, 235, 161, 339, 32, 236, 402,
      236, 402, 237, 8226, 732, 236, 8212, 172, 32, 234, 183, 184, 235, 166, 176, 32, 236,
      165, 235, 169, 180, 236, 8230, 235, 8249, 710, 235, 8249, 164, 46]"

definition placeholder_title :: jsstring where
  "placeholder_title = [236, 160, 339, 235, 170, 169, 32, 236, 8212, 8224, 236, 338]"

definition placeholder_summary :: jsstring where
  "placeholder_summary =
     [236, 164, 8222, 234, 177, 176, 235, 166, 172, 32, 236, 8212, 8224, 236, 338]"

definition placeholder_content :: jsstring where
  "placeholder_content = [235, 8218, 180, 236, 353, 169, 32, 236, 8212, 8224, 236, 338]"

text \<open>
  \<open>getCurrentEntry\<close>. \<open>generateId\<close> is a function of the module \<open>utils\<close>, which is not
  modelled, and \<open>Date.now()\<close> reads the clock: the id that \<open>generateId()\<close> would return
  and the current time are the parameters \<open>generatedId\<close> and \<open>now\<close>.
\<close>

definition getCurrentEntry :: "Workspace \<Rightarrow> jsstring \<Rightarrow> int \<Rightarrow> StoryEntry" where
  "getCurrentEntry ws generatedId now =
     (let finalSceneText =
            (if \<not> truthy (ws_favoriteScene ws) \<and> truthy_opt (ws_generatedImage ws)
             then scene_caption else ws_favoriteScene ws)
      in \<lparr>entryId = opt_or_else (ws_loadedId ws) generatedId,
          videoUrl = ws_loadedVideoUrl ws,
          videoId = ws_loadedVideoId ws,
          title = or_else (ws_title ws) placeholder_title,
          summary = or_else (ws_summary ws) placeholder_summary,
          favoriteScene = or_else finalSceneText placeholder_content,
          thoughts = or_else (ws_thoughts ws) placeholder_content,
          generatedImageUrl =
            (if truthy_opt (ws_generatedImage ws) then ws_generatedImage ws else None),
          styleConfig =
            Some \<lparr>fontFamily = ws_fontFamily ws, fontSize = ws_fontSize ws,
                  drawingLevel = Some (ws_drawingLevel ws),
                  writingGrade = Some (ws_writingGrade ws)\<rparr>,
          createdAt = now\<rparr>)"

text \<open>
  The start-up effect of the application: \<open>localStorage.getItem\<close> and \<open>JSON.parse\<close>.
  \<open>parsed\<close> is \<open>None\<close> when there is no stored item or parsing throws (the entries
  stay as they are) and \<open>Some\<close> of the parsed list otherwise, which replaces the entries.
  The parsed list is only known to be of the type \<open>StoryEntry[]\<close>.
\<close>

definition loadEntries :: "StoryEntry list option \<Rightarrow> StoryEntry list \<Rightarrow> StoryEntry list" where
  "loadEntries parsed entries = (case parsed of None \<Rightarrow> entries | Some stored \<Rightarrow> stored)"

text \<open>
  The store states of the application: the empty list after the start-up load, then the
  two handlers. The only call of the save handler is \<open>onSave(getCurrentEntry())\<close> in
  \<open>handleDownloadImage\<close>.
\<close>

inductive app_store :: "StoryEntry list option \<Rightarrow> StoryEntry list \<Rightarrow> bool" where
  app_store_init: "app_store parsed (loadEntries parsed [])"
| app_store_save:
    "app_store parsed es \<Longrightarrow>
       app_store parsed (handleSaveEntry (getCurrentEntry ws generatedId now) es)"
| app_store_delete: "app_store parsed es \<Longrightarrow> app_store parsed (handleDeleteEntry c i es)"

text \<open>
  What an entry holds beyond what its type already demands: non-empty texts and a style
  configuration with all four components.
\<close>

definition complete_entry :: "StoryEntry \<Rightarrow> bool" where
  "complete_entry e =
     (title e \<noteq> [] \<and> summary e \<noteq> [] \<and> favoriteScene e \<noteq> [] \<and> thoughts e \<noteq> []
      \<and> (case styleConfig e of
            None \<Rightarrow> False
          | Some c \<Rightarrow> drawingLevel c \<noteq> None \<and> writingGrade c \<noteq> None))"

text \<open>A workspace with nothing typed in and no image; used in examples.\<close>

definition blank_workspace :: Workspace where
  "blank_workspace =
     \<lparr>ws_title = [], ws_summary = [], ws_favoriteScene = [], ws_thoughts = [],
      ws_generatedImage = None, ws_loadedId = None, ws_loadedVideoUrl = [],
      ws_loadedVideoId = [], ws_fontFamily = Font_basic, ws_fontSize = Size_medium,
      ws_drawingLevel = Level_low, ws_writingGrade = 1\<rparr>"

text \<open>
  An entry as an earlier version of the application may have stored it: with texts and an
  image, without a style configuration. Used in examples.
\<close>

definition legacy_entry :: StoryEntry where
  "legacy_entry =
     \<lparr>entryId = ascii ''old1'', videoUrl = ascii ''https://youtu.be/x'', videoId = ascii ''x'',
      title = ascii ''Three Pigs'', summary = ascii ''They build.'',
      favoriteScene = ascii ''The wolf blows.'', thoughts = ascii ''Work hard.'',
      generatedImageUrl = Some (ascii ''data:image/png;base64,AAAA''), styleConfig = None,
      createdAt = 1700000000000\<rparr>"

section \<open>The analysis response parser (analyzeStoryLink)\<close>

subsection \<open>Character classes and \<open>trim\<close>\<close>

text \<open>
  The line terminators of the language (LF, CR, U+2028, U+2029): the characters that
  \<open>.\<close> does not match.
\<close>

definition is_line_terminator :: "int \<Rightarrow> bool" where
  "is_line_terminator c = (c = 10 \<or> c = 13 \<or> c = 8232 \<or> c = 8233)"

text \<open>
  White space and line terminators: the class \<open>\s\<close>, and the characters that \<open>trim\<close>
  strips (TAB, LF, VT, FF, CR, space, U+00A0, U+1680, U+2000 to U+200A, U+2028, U+2029,
  U+202F, U+205F, U+3000, U+FEFF).
\<close>

definition is_space :: "int \<Rightarrow> bool" where
  "is_space c =
     (c = 9 \<or> c = 10 \<or> c = 11 \<or> c = 12 \<or> c = 13 \<or> c = 32 \<or> c = 160 \<or> c = 5760
      \<or> (8192 \<le> c \<and> c \<le> 8202) \<or> c = 8232 \<or> c = 8233 \<or> c = 8239 \<or> c = 8287
      \<or> c = 12288 \<or> c = 65279)"

definition trim :: "jsstring \<Rightarrow> jsstring" where
  "trim s = rev (dropWhile is_space (rev (dropWhile is_space s)))"

subsection \<open>The regular expressions, as a backtracking matcher\<close>

text \<open>
  A matcher reads the rest of the input and returns capture group 1 when the pattern
  matches there, \<open>None\<close> when it does not. Each piece of a pattern takes the matcher of
  what follows it, so that a failure further right makes it try its next alternative, as
  the backtracking engine does.
\<close>

text \<open>A literal.\<close>

definition lit :: "jsstring \<Rightarrow> (jsstring \<Rightarrow> 'a option) \<Rightarrow> jsstring \<Rightarrow> 'a option" where
  "lit l k s = (if prefix l s then k (drop (length l) s) else None)"

text \<open>Greedy \<open>\s*\<close>: as many characters as possible first, one fewer on failure.\<close>

fun ws_star :: "(jsstring \<Rightarrow> 'a option) \<Rightarrow> jsstring \<Rightarrow> 'a option" where
  "ws_star k [] = k []"
| "ws_star k (c # cs) =
     (if is_space c
      then (case ws_star k cs of Some r \<Rightarrow> Some r | None \<Rightarrow> k (c # cs))
      else k (c # cs))"

text \<open>
  \<open>(.+)\<close> at the end of a pattern: the longest run of characters other than line
  terminators, which must not be empty.
\<close>

definition dot_plus :: "jsstring \<Rightarrow> jsstring option" where
  "dot_plus s =
     (let g = takeWhile (\<lambda>c. \<not> is_line_terminator c) s in if g = [] then None else Some g)"

text \<open>
  Lazy \<open>([\s\S]*?)\<close> followed by a lookahead: the shortest run of arbitrary characters
  after which the lookahead holds.
\<close>

fun lazy_any :: "(jsstring \<Rightarrow> bool) \<Rightarrow> jsstring \<Rightarrow> jsstring option" where
  "lazy_any ahead [] = (if ahead [] then Some [] else None)"
| "lazy_any ahead (c # cs) =
     (if ahead (c # cs) then Some [] else map_option ((#) c) (lazy_any ahead cs))"

text \<open>\<open>String.prototype.match\<close> without the \<open>g\<close> flag: the leftmost start that matches.\<close>

fun search :: "(jsstring \<Rightarrow> 'a option) \<Rightarrow> jsstring \<Rightarrow> 'a option" where
  "search m [] = m []"
| "search m (c # cs) = (case m (c # cs) of Some r \<Rightarrow> Some r | None \<Rightarrow> search m cs)"

text \<open>The four labels: U+C81C U+BAA9, U+C904 U+AC70 U+B9AC, U+C7A5 U+BA74 and
  U+B290 U+B080 U+C810, each followed by a colon.\<close>

definition title_label :: jsstring where
  "title_label = [51228, 47785, 58]"

definition summary_label :: jsstring where
  "summary_label = [51460, 44144, 47532, 58]"

definition scene_label :: jsstring where
  "scene_label = [51109, 47732, 58]"

definition thoughts_label :: jsstring where
  "thoughts_label = [45712, 45184, 51216, 58]"

text \<open>
  The four \<open>text.match(...)\<close> calls. The result is \<open>None\<close> for \<open>null\<close> and
  \<open>Some g\<close> for a match whose group 1 is \<open>g\<close>. Without the \<open>m\<close> flag, \<open>$\<close> is the end
  of the text.
\<close>

definition titleMatch :: "jsstring \<Rightarrow> jsstring option" where
  "titleMatch text = search (lit title_label (ws_star dot_plus)) text"

definition summaryMatch :: "jsstring \<Rightarrow> jsstring option" where
  "summaryMatch text =
     search (lit summary_label (ws_star (lazy_any (\<lambda>s. prefix scene_label s \<or> s = [])))) text"

definition sceneMatch :: "jsstring \<Rightarrow> jsstring option" where
  "sceneMatch text =
     search (lit scene_label (ws_star (lazy_any (\<lambda>s. prefix thoughts_label s \<or> s = [])))) text"

definition thoughtsMatch :: "jsstring \<Rightarrow> jsstring option" where
  "thoughtsMatch text = search (lit thoughts_label (ws_star (lazy_any (\<lambda>s. s = [])))) text"

subsection \<open>From the matches to the result\<close>

text \<open>The condition \<open>m && m[1]\<close> and the value \<open>m[1]\<close> read under it.\<close>

definition group_truthy :: "jsstring option \<Rightarrow> bool" where
  "group_truthy m = (case m of None \<Rightarrow> False | Some g \<Rightarrow> truthy g)"

definition group1 :: "jsstring option \<Rightarrow> jsstring" where
  "group1 m = (case m of None \<Rightarrow> [] | Some g \<Rightarrow> g)"

text \<open>The two fallback texts for a title and a summary that are still empty.\<close>

definition fallback_title :: jsstring where
  "fallback_title =
     [46041, 54868, 32, 51228, 47785, 51012, 32, 52286, 51012, 32, 49688, 32, 50630, 50612,
      50836]"

definition fallback_summary :: jsstring where
  "fallback_summary =
     [51460, 44144, 47532, 47484, 32, 44032, 51256, 50724, 45716, 45936, 32, 49892, 54056,
      54664, 50612, 50836, 46, 32, 47553, 53356, 44032, 32, 50732, 48148, 47480, 51648, 32,
      54869, 51064, 54644, 51452, 49464, 50836, 46]"

text \<open>
  The parsing step of \<open>analyzeStoryLink\<close>: from the response text (and the optional
  \<open>manualTitle\<close>) to the returned record.
\<close>

definition analyzeStoryLink_parse :: "jsstring option \<Rightarrow> jsstring \<Rightarrow> YouTubeAnalysisResult" where
  "analyzeStoryLink_parse manualTitle text =
     (let title0 = opt_or_else manualTitle [];
          title1 = (if group_truthy (titleMatch text) then trim (group1 (titleMatch text))
                    else title0);
          summary1 = (if group_truthy (summaryMatch text) then trim (group1 (summaryMatch text))
                      else if titleMatch text = None \<and> 10 < length text then text
                      else []);
          scene1 = (if group_truthy (sceneMatch text) then trim (group1 (sceneMatch text))
                    else []);
          thoughts1 = (if group_truthy (thoughtsMatch text)
                       then trim (group1 (thoughtsMatch text)) else []);
          title2 = (if \<not> truthy title1 then fallback_title else title1);
          summary2 = (if \<not> truthy summary1 then fallback_summary else summary1)
      in \<lparr>result_title = title2, result_summary = summary2,
          recommendedScene = scene1, recommendedThoughts = thoughts1\<rparr>)"

subsection \<open>The extraction, described without the matcher\<close>

text \<open>The text after the first occurrence of a label, if the label occurs.\<close>

fun after_label :: "jsstring \<Rightarrow> jsstring \<Rightarrow> jsstring option" where
  "after_label l [] = (if l = [] then Some [] else None)"
| "after_label l (c # cs) =
     (if prefix l (c # cs) then Some (drop (length l) (c # cs)) else after_label l cs)"

text \<open>The text before the first occurrence of a label, or all of it.\<close>

fun up_to :: "jsstring \<Rightarrow> jsstring \<Rightarrow> jsstring" where
  "up_to l [] = []"
| "up_to l (c # cs) = (if prefix l (c # cs) then [] else c # up_to l cs)"

text \<open>
  A body field: from the first occurrence of its label to the next occurrence of the
  label that follows it (or to the end of the text), trimmed.
\<close>

definition field_between :: "jsstring \<Rightarrow> jsstring \<Rightarrow> jsstring \<Rightarrow> jsstring option" where
  "field_between l stop text = map_option (\<lambda>post. trim (up_to stop post)) (after_label l text)"

text \<open>The last field: from the first occurrence of its label to the end, trimmed.\<close>

definition field_to_end :: "jsstring \<Rightarrow> jsstring \<Rightarrow> jsstring option" where
  "field_to_end l text = map_option trim (after_label l text)"

text \<open>
  The title: after the first occurrence of its label and the white space that follows,
  the rest of that line, trimmed.
\<close>

definition title_line :: "jsstring \<Rightarrow> jsstring option" where
  "title_line text =
     map_option (\<lambda>post. trim (takeWhile (\<lambda>c. \<not> is_line_terminator c) (dropWhile is_space post)))
       (after_label title_label text)"

text \<open>The value of an extracted field, the empty string when there is none.\<close>

definition or_empty :: "jsstring option \<Rightarrow> jsstring" where
  "or_empty v = (case v of None \<Rightarrow> [] | Some s \<Rightarrow> s)"

text \<open>A response in the requested format and one that ignores it; used in examples.\<close>

definition sample_response :: jsstring where
  "sample_response =
     title_label @ ascii '' Three Pigs\<newline>'' @ summary_label @ ascii '' They build.  \<newline>''
     @ scene_label @ ascii '' The wolf blows. '' @ thoughts_label @ ascii ''\<newline>Work hard.\<newline>''"

definition unformatted_response :: jsstring where
  "unformatted_response = ascii ''I could not find the video.''"

section \<open>The three service operations (geminiService)\<close>

subsection \<open>Errors, the client and the response\<close>



text \<open>
  The part of the response that the operations read. Every property is optional, as in
  the client library; \<open>response_text\<close> is the property \<open>text\<close>.
\<close>

record Blob =
  data :: "jsstring option"
  mimeType :: "jsstring option"







text \<open>
  A number in a template literal. The numbers here are the grade and the two sentence
  counts, small integers, which print in plain decimal.
\<close>

function digits :: "int \<Rightarrow> jsstring" where
  "digits n = (if n < 10 then [48 + n] else digits (n div 10) @ [48 + n mod 10])"
  by pat_completeness auto
termination
  by (relation "measure nat") auto

declare digits.simps [simp del]

definition number_to_string :: "int \<Rightarrow> jsstring" where
  "number_to_string n = (if n < 0 then 45 # digits (- n) else digits n)"



subsection \<open>analyzeStoryLink\<close>







subsection \<open>generateSceneImage\<close>












subsection \<open>generateStorySpeech\<close>









section \<open>Properties of the style toggles\<close>

lemma indexOf_ge: "- 1 \<le> indexOf xs x"
  by (induction xs) (auto simp: Let_def)

lemma indexOf_lt: "indexOf xs x < int (length xs)"
  by (induction xs) (auto simp: Let_def)

lemma next_index_in_range:
  assumes "xs \<noteq> []"
  shows "0 \<le> next_index xs x \<and> next_index xs x < int (length xs)"
proof -
  have nonneg: "0 \<le> indexOf xs x + 1"
    using indexOf_ge [of xs x] by simp
  have pos: "0 < int (length xs)"
    using assms by simp
  have "next_index xs x = (indexOf xs x + 1) mod int (length xs)"
    using nonneg by (cases "indexOf xs x + 1 = 0") (simp_all add: next_index_def js_rem_def)
  then show ?thesis
    using pos by simp
qed

lemma toggleFontFamily_simps:
  "toggleFontFamily Font_basic = Font_cute"
  "toggleFontFamily Font_cute = Font_hand"
  "toggleFontFamily Font_hand = Font_dongle"
  "toggleFontFamily Font_dongle = Font_gamja"
  "toggleFontFamily Font_gamja = Font_poor"
  "toggleFontFamily Font_poor = Font_basic"
  by (simp_all add: toggleFontFamily_def next_index_def fonts_def js_rem_def)

lemma toggleFontSize_simps:
  "toggleFontSize Size_x_small = Size_small"
  "toggleFontSize Size_small = Size_medium"
  "toggleFontSize Size_medium = Size_large"
  "toggleFontSize Size_large = Size_x_large"
  "toggleFontSize Size_x_large = Size_x_small"
  by (simp_all add: toggleFontSize_def next_index_def sizes_def js_rem_def)

lemma toggleDrawingLevel_simps:
  "toggleDrawingLevel Level_low = Level_medium"
  "toggleDrawingLevel Level_medium = Level_high"
  "toggleDrawingLevel Level_high = Level_low"
  by (simp_all add: toggleDrawingLevel_def next_index_def levels_def js_rem_def)

lemma valid_grade_cases:
  "valid_grade g \<longleftrightarrow> g = 1 \<or> g = 2 \<or> g = 3 \<or> g = 4 \<or> g = 5 \<or> g = 6"
  unfolding valid_grade_def by arith

lemma toggleWritingGrade_simps:
  "toggleWritingGrade 1 = 2"
  "toggleWritingGrade 2 = 3"
  "toggleWritingGrade 3 = 4"
  "toggleWritingGrade 4 = 5"
  "toggleWritingGrade 5 = 6"
  "toggleWritingGrade 6 = 1"
  by (simp_all add: toggleWritingGrade_def js_rem_def)

lemma funpow_3: "(f ^^ 3) x = f (f (f x))"
  by (simp add: numeral_3_eq_3)

lemma funpow_5: "(f ^^ 5) x = f (f (f (f (f x))))"
  by (simp add: eval_nat_numeral)

lemma funpow_6: "(f ^^ 6) x = f (f (f (f (f (f x)))))"
  by (simp add: eval_nat_numeral)

text \<open>
  Claim C2. Each of the four style toggles moves its option to the next element of its
  fixed enumeration and wraps from the last element to the first; applying the font
  toggle 6 times, the size toggle 5 times, the drawing-level toggle 3 times or the grade
  toggle 6 times to a valid option gives that option back.
\<close>

theorem toggles_cycle:
  "map toggleFontFamily fonts = [Font_cute, Font_hand, Font_dongle, Font_gamja, Font_poor, Font_basic]
   \<and> map toggleFontSize sizes = [Size_small, Size_medium, Size_large, Size_x_large, Size_x_small]
   \<and> map toggleDrawingLevel levels = [Level_medium, Level_high, Level_low]
   \<and> map toggleWritingGrade [1, 2, 3, 4, 5, 6] = [2, 3, 4, 5, 6, 1]
   \<and> (toggleFontFamily ^^ 6) f = f
   \<and> (toggleFontSize ^^ 5) s = s
   \<and> (toggleDrawingLevel ^^ 3) l = l
   \<and> (valid_grade g \<longrightarrow> valid_grade (toggleWritingGrade g) \<and> (toggleWritingGrade ^^ 6) g = g)"
proof -
  have a: "map toggleFontFamily fonts
      = [Font_cute, Font_hand, Font_dongle, Font_gamja, Font_poor, Font_basic]"
    by (simp add: fonts_def toggleFontFamily_simps)
  have b: "map toggleFontSize sizes
      = [Size_small, Size_medium, Size_large, Size_x_large, Size_x_small]"
    by (simp add: sizes_def toggleFontSize_simps)
  have c: "map toggleDrawingLevel levels = [Level_medium, Level_high, Level_low]"
    by (simp add: levels_def toggleDrawingLevel_simps)
  have d: "map toggleWritingGrade [1, 2, 3, 4, 5, 6] = [2, 3, 4, 5, 6, 1]"
    by (simp add: toggleWritingGrade_simps)
  have e: "(toggleFontFamily ^^ 6) f = f"
    by (cases f) (simp_all add: funpow_6 toggleFontFamily_simps)
  have f: "(toggleFontSize ^^ 5) s = s"
    by (cases s) (simp_all add: funpow_5 toggleFontSize_simps)
  have g: "(toggleDrawingLevel ^^ 3) l = l"
    by (cases l) (simp_all add: funpow_3 toggleDrawingLevel_simps)
  have h: "valid_grade g \<longrightarrow> valid_grade (toggleWritingGrade g) \<and> (toggleWritingGrade ^^ 6) g = g"
  proof
    assume "valid_grade g"
    then consider "g = 1" | "g = 2" | "g = 3" | "g = 4" | "g = 5" | "g = 6"
      by (auto simp: valid_grade_cases)
    then show "valid_grade (toggleWritingGrade g) \<and> (toggleWritingGrade ^^ 6) g = g"
      by cases (simp_all add: funpow_6 toggleWritingGrade_simps valid_grade_def)
  qed
  from a b c d e f g h show ?thesis
    by blast
qed

theorem toggles_cycle_witness:
  "valid_grade 6 \<and> toggleWritingGrade 6 = 1 \<and> (toggleWritingGrade ^^ 6) 6 = 6
   \<and> (toggleFontFamily ^^ 6) Font_poor = Font_poor"
proof -
  have v: "valid_grade 6"
    by (simp add: valid_grade_def)
  have t: "toggleWritingGrade 6 = 1"
    by (simp add: toggleWritingGrade_def js_rem_def)
  from toggles_cycle [of Font_poor Size_small Level_low 6] v t show ?thesis
    by blast
qed

section \<open>Properties of the entry store\<close>

lemma handleSaveEntry_present:
  assumes "\<exists>x\<in>set prev. entryId x = entryId entry"
  shows "handleSaveEntry entry prev = map (\<lambda>e. if entryId e = entryId entry then entry else e) prev"
proof -
  from assms have "find (\<lambda>e. entryId e = entryId entry) prev \<noteq> None"
    by (auto simp: find_None_iff)
  then show ?thesis
    by (auto simp: handleSaveEntry_def split: option.splits)
qed

lemma handleSaveEntry_absent:
  assumes "\<forall>x\<in>set prev. entryId x \<noteq> entryId entry"
  shows "handleSaveEntry entry prev = entry # prev"
proof -
  from assms have "find (\<lambda>e. entryId e = entryId entry) prev = None"
    by (simp add: find_None_iff)
  then show ?thesis
    by (simp add: handleSaveEntry_def)
qed

lemma replace_keeps_ids:
  "map entryId (map (\<lambda>e. if entryId e = entryId entry then entry else e) prev) = map entryId prev"
  by (induction prev) auto






text \<open>
  Claim C8. Saving is update-or-prepend. If an entry of the list has the id of the saved
  entry, the result has the same length, holds the saved entry at every position whose
  entry has that id and the old entry at every other position, so the ids stay where they
  were; otherwise the result is the saved entry followed by the old list.
\<close>

theorem handleSaveEntry_update_or_prepend:
  "((\<exists>x\<in>set prev. entryId x = entryId entry) \<longrightarrow>
      length (handleSaveEntry entry prev) = length prev
      \<and> (\<forall>k<length prev. handleSaveEntry entry prev ! k
            = (if entryId (prev ! k) = entryId entry then entry else prev ! k))
      \<and> map entryId (handleSaveEntry entry prev) = map entryId prev)
   \<and> ((\<forall>x\<in>set prev. entryId x \<noteq> entryId entry) \<longrightarrow>
      handleSaveEntry entry prev = entry # prev)"
proof (intro conjI impI)
  assume p: "\<exists>x\<in>set prev. entryId x = entryId entry"
  show "length (handleSaveEntry entry prev) = length prev"
    by (simp add: handleSaveEntry_present [OF p])
  show "\<forall>k<length prev. handleSaveEntry entry prev ! k
            = (if entryId (prev ! k) = entryId entry then entry else prev ! k)"
    by (simp add: handleSaveEntry_present [OF p])
  show "map entryId (handleSaveEntry entry prev) = map entryId prev"
    by (simp only: handleSaveEntry_present [OF p] replace_keeps_ids)
next
  assume "\<forall>x\<in>set prev. entryId x \<noteq> entryId entry"
  then show "handleSaveEntry entry prev = entry # prev"
    by (rule handleSaveEntry_absent)
qed

theorem handleSaveEntry_update_or_prepend_witness:
  "(\<exists>x\<in>set [sample_entry (ascii ''a'') [], sample_entry (ascii ''b'') []].
       entryId x = entryId (sample_entry (ascii ''b'') (ascii ''new'')))
   \<and> handleSaveEntry (sample_entry (ascii ''b'') (ascii ''new''))
        [sample_entry (ascii ''a'') [], sample_entry (ascii ''b'') []] ! 1
      = sample_entry (ascii ''b'') (ascii ''new'')
   \<and> handleSaveEntry (sample_entry (ascii ''b'') (ascii ''new''))
        [sample_entry (ascii ''a'') [], sample_entry (ascii ''b'') []] ! 0
      = sample_entry (ascii ''a'') []
   \<and> entryId (sample_entry (ascii ''a'') []) \<noteq> entryId (sample_entry (ascii ''c'') [])
   \<and> entryId (sample_entry (ascii ''b'') []) \<noteq> entryId (sample_entry (ascii ''c'') [])
   \<and> handleSaveEntry (sample_entry (ascii ''c'') [])
        [sample_entry (ascii ''a'') [], sample_entry (ascii ''b'') []]
      = [sample_entry (ascii ''c'') [], sample_entry (ascii ''a'') [], sample_entry (ascii ''b'') []]"
proof -
  let ?a = "sample_entry (ascii ''a'') []"
  let ?b = "sample_entry (ascii ''b'') []"
  let ?b' = "sample_entry (ascii ''b'') (ascii ''new'')"
  let ?c = "sample_entry (ascii ''c'') []"
  have p: "\<exists>x\<in>set [?a, ?b]. entryId x = entryId ?b'"
    by (simp add: sample_entry_def)
  have qa: "entryId ?a \<noteq> entryId ?c" and qb: "entryId ?b \<noteq> entryId ?c"
    by (simp_all add: sample_entry_def ascii_def)
  then have q: "\<forall>x\<in>set [?a, ?b]. entryId x \<noteq> entryId ?c"
    by simp
  have ids: "entryId ?a \<noteq> entryId ?b'" "entryId ?b = entryId ?b'"
    by (simp_all add: sample_entry_def ascii_def)
  note upd = handleSaveEntry_update_or_prepend [of "[?a, ?b]" ?b', THEN conjunct1, THEN mp, OF p]
  note nth = upd [THEN conjunct2, THEN conjunct1, rule_format]
  from nth [of 1] ids have n1: "handleSaveEntry ?b' [?a, ?b] ! 1 = ?b'"
    by simp
  from nth [of 0] ids have n0: "handleSaveEntry ?b' [?a, ?b] ! 0 = ?a"
    by simp
  note pre = handleSaveEntry_update_or_prepend [of "[?a, ?b]" ?c, THEN conjunct2, THEN mp, OF q]
  show ?thesis
    by (intro conjI p qa qb n0 n1 pre)
qed

lemma length_filter_split:
  "length xs = length (filter P xs) + length (filter (\<lambda>x. \<not> P x) xs)"
  by (induction xs) auto

text \<open>
  Claim C9. A confirmed deletion by id removes exactly the entries with that id: the
  result holds the entries of the old list whose id differs, as a subsequence of the old
  list (so in their old order), and the length drops by the number of entries with that
  id. Deleting an id that no entry has, and a deletion that is not confirmed, leave the
  list as it was.
\<close>

theorem handleDeleteEntry_frame:
  "set (handleDeleteEntry True i prev) = {e \<in> set prev. entryId e \<noteq> i}
   \<and> subseq (handleDeleteEntry True i prev) prev
   \<and> length prev = length (handleDeleteEntry True i prev)
        + length (filter (\<lambda>e. entryId e = i) prev)
   \<and> ((\<forall>e\<in>set prev. entryId e \<noteq> i) \<longrightarrow> handleDeleteEntry True i prev = prev)
   \<and> handleDeleteEntry False i prev = prev"
proof (intro conjI impI)
  show "set (handleDeleteEntry True i prev) = {e \<in> set prev. entryId e \<noteq> i}"
    by (simp add: handleDeleteEntry_def)
  show "subseq (handleDeleteEntry True i prev) prev"
    by (simp add: handleDeleteEntry_def)
  show "length prev = length (handleDeleteEntry True i prev)
        + length (filter (\<lambda>e. entryId e = i) prev)"
    using length_filter_split [of prev "\<lambda>e. entryId e \<noteq> i"]
    by (simp add: handleDeleteEntry_def)
  show "handleDeleteEntry False i prev = prev"
    by (simp add: handleDeleteEntry_def)
next
  assume "\<forall>e\<in>set prev. entryId e \<noteq> i"
  then show "handleDeleteEntry True i prev = prev"
    by (simp add: handleDeleteEntry_def)
qed

theorem handleDeleteEntry_frame_witness:
  "entryId (sample_entry (ascii ''a'') []) \<noteq> ascii ''b''
   \<and> handleDeleteEntry True (ascii ''b'') [sample_entry (ascii ''a'') []]
        = [sample_entry (ascii ''a'') []]
   \<and> set (handleDeleteEntry True (ascii ''a'') [sample_entry (ascii ''a'') []]) = {}"
proof -
  let ?a = "sample_entry (ascii ''a'') []"
  have h1: "entryId ?a \<noteq> ascii ''b''"
    by (simp add: sample_entry_def ascii_def)
  then have h: "\<forall>e\<in>set [?a]. entryId e \<noteq> ascii ''b''"
    by simp
  note keep = handleDeleteEntry_frame [of "ascii ''b''" "[?a]",
      THEN conjunct2, THEN conjunct2, THEN conjunct2, THEN conjunct1, THEN mp, OF h]
  have "{e \<in> set [?a]. entryId e \<noteq> ascii ''a''} = {}"
    by (simp add: sample_entry_def)
  with handleDeleteEntry_frame [of "ascii ''a''" "[?a]", THEN conjunct1]
  have gone: "set (handleDeleteEntry True (ascii ''a'') [?a]) = {}"
    by (rule trans)
  show ?thesis
    by (intro conjI h1 keep gone)
qed

section \<open>Properties of the workspace editor\<close>

lemma or_else_nonempty: "b \<noteq> [] \<Longrightarrow> or_else a b \<noteq> []"
  by (simp add: or_else_def truthy_def)

lemma placeholders_nonempty:
  "placeholder_title \<noteq> []" "placeholder_summary \<noteq> []" "placeholder_content \<noteq> []"
  "scene_caption \<noteq> []"
  by (simp_all add: placeholder_title_def placeholder_summary_def placeholder_content_def
      scene_caption_def)

lemma getCurrentEntry_texts:
  "title (getCurrentEntry ws gid now) = or_else (ws_title ws) placeholder_title"
  "summary (getCurrentEntry ws gid now) = or_else (ws_summary ws) placeholder_summary"
  "thoughts (getCurrentEntry ws gid now) = or_else (ws_thoughts ws) placeholder_content"
  "favoriteScene (getCurrentEntry ws gid now)
     = or_else (if \<not> truthy (ws_favoriteScene ws) \<and> truthy_opt (ws_generatedImage ws)
                then scene_caption else ws_favoriteScene ws) placeholder_content"
  by (simp_all add: getCurrentEntry_def Let_def)

lemma getCurrentEntry_styleConfig:
  "styleConfig (getCurrentEntry ws gid now)
     = Some \<lparr>fontFamily = ws_fontFamily ws, fontSize = ws_fontSize ws,
             drawingLevel = Some (ws_drawingLevel ws),
             writingGrade = Some (ws_writingGrade ws)\<rparr>"
  by (simp add: getCurrentEntry_def Let_def)

lemma getCurrentEntry_complete: "complete_entry (getCurrentEntry ws gid now)"
  by (simp add: complete_entry_def getCurrentEntry_texts getCurrentEntry_styleConfig
      or_else_nonempty placeholders_nonempty)

lemma set_handleSaveEntry: "set (handleSaveEntry e es) \<subseteq> insert e (set es)"
  by (auto simp: handleSaveEntry_def split: option.splits if_splits)

lemma set_handleDeleteEntry: "set (handleDeleteEntry c i es) \<subseteq> set es"
  by (auto simp: handleDeleteEntry_def)

lemma app_store_entries:
  "app_store parsed es \<Longrightarrow> \<forall>e\<in>set es. e \<in> set (loadEntries parsed []) \<or> complete_entry e"
proof (induction rule: app_store.induct)
  case (app_store_init parsed)
  show ?case by simp
next
  case (app_store_save parsed es ws generatedId now)
  then show ?case
    using set_handleSaveEntry [of "getCurrentEntry ws generatedId now" es]
      getCurrentEntry_complete [of ws generatedId now]
    by auto
next
  case (app_store_delete parsed es c i)
  then show ?case
    using set_handleDeleteEntry [of c i es] by auto
qed

lemma app_store_fresh: "app_store None es \<Longrightarrow> \<forall>e\<in>set es. complete_entry e"
  using app_store_entries [of None es] by (simp add: loadEntries_def)

text \<open>
  Claim C6, as stated, fails: the image is not the only component a saved entry may lack.
  The list read back from local storage at start-up is a list of the type \<open>StoryEntry\<close>,
  where the style configuration is optional too; an entry stored without one is in the
  store, keeps its missing style configuration and stays there when a new entry is saved.
\<close>

theorem stored_entry_without_style_counterexample:
  "app_store (Some [legacy_entry]) [legacy_entry]
   \<and> styleConfig legacy_entry = None
   \<and> generatedImageUrl legacy_entry = Some (ascii ''data:image/png;base64,AAAA'')
   \<and> app_store (Some [legacy_entry])
        [getCurrentEntry blank_workspace (ascii ''id1'') 7, legacy_entry]"
proof -
  let ?e = "getCurrentEntry blank_workspace (ascii ''id1'') 7"
  have "app_store (Some [legacy_entry]) (loadEntries (Some [legacy_entry]) [])"
    by (rule app_store_init)
  then have a: "app_store (Some [legacy_entry]) [legacy_entry]"
    by (simp add: loadEntries_def)
  have b: "styleConfig legacy_entry = None"
    by (simp add: legacy_entry_def)
  have c: "generatedImageUrl legacy_entry = Some (ascii ''data:image/png;base64,AAAA'')"
    by (simp add: legacy_entry_def)
  have "entryId ?e \<noteq> entryId legacy_entry"
    by (simp add: getCurrentEntry_def blank_workspace_def legacy_entry_def opt_or_else_def
        ascii_def)
  then have "handleSaveEntry ?e [legacy_entry] = [?e, legacy_entry]"
    by (simp add: handleSaveEntry_def)
  moreover have "app_store (Some [legacy_entry]) (handleSaveEntry ?e [legacy_entry])"
    using a by (rule app_store_save)
  ultimately have d: "app_store (Some [legacy_entry]) [?e, legacy_entry]"
    by simp
  show ?thesis
    by (intro conjI a b c d)
qed

text \<open>
  Claim C6, amended. Every entry that the workspace builds and hands to the save handler
  is a full record: a non-empty title, summary, scene text and thoughts, a style
  configuration with its four components and the time of its creation as timestamp; the
  image is its only component that may be missing, and it is missing exactly when the
  workspace has no generated image. Every entry of the store is such an entry or an entry
  of the list read back from local storage at start-up, which is only known to have the
  type \<open>StoryEntry\<close> (where the style configuration is optional as well); when nothing
  was read back, every entry of the store is a full record.
\<close>

theorem saved_entry_components:
  "complete_entry (getCurrentEntry ws gid now)
   \<and> createdAt (getCurrentEntry ws gid now) = now
   \<and> generatedImageUrl (getCurrentEntry ws gid now)
       = (if truthy_opt (ws_generatedImage ws) then ws_generatedImage ws else None)
   \<and> (app_store parsed es \<longrightarrow>
        (\<forall>e\<in>set es. e \<in> set (loadEntries parsed []) \<or> complete_entry e))
   \<and> (app_store None es \<longrightarrow> (\<forall>e\<in>set es. complete_entry e))"
proof (intro conjI impI)
  show "complete_entry (getCurrentEntry ws gid now)"
    by (rule getCurrentEntry_complete)
  show "createdAt (getCurrentEntry ws gid now) = now"
    by (simp add: getCurrentEntry_def Let_def)
  show "generatedImageUrl (getCurrentEntry ws gid now)
       = (if truthy_opt (ws_generatedImage ws) then ws_generatedImage ws else None)"
    by (simp add: getCurrentEntry_def Let_def)
next
  assume "app_store parsed es"
  then show "\<forall>e\<in>set es. e \<in> set (loadEntries parsed []) \<or> complete_entry e"
    by (rule app_store_entries)
next
  assume "app_store None es"
  then show "\<forall>e\<in>set es. complete_entry e"
    by (rule app_store_fresh)
qed

theorem saved_entry_components_witness:
  "app_store None [getCurrentEntry blank_workspace (ascii ''id1'') 7]
   \<and> complete_entry (getCurrentEntry blank_workspace (ascii ''id1'') 7)
   \<and> app_store (Some [legacy_entry])
        [getCurrentEntry blank_workspace (ascii ''id1'') 7, legacy_entry]
   \<and> legacy_entry \<in> set (loadEntries (Some [legacy_entry]) [])
   \<and> generatedImageUrl (getCurrentEntry blank_workspace (ascii ''id1'') 7) = None
   \<and> generatedImageUrl
        (getCurrentEntry (blank_workspace\<lparr>ws_generatedImage := Some (ascii ''data:'')\<rparr>)
           (ascii ''id1'') 7) = Some (ascii ''data:'')"
proof -
  let ?e = "getCurrentEntry blank_workspace (ascii ''id1'') 7"
  let ?w = "blank_workspace\<lparr>ws_generatedImage := Some (ascii ''data:'')\<rparr>"
  have e: "handleSaveEntry ?e [] = [?e]"
    by (simp add: handleSaveEntry_def)
  have "app_store None (loadEntries None [])"
    by (rule app_store_init)
  then have "app_store None []"
    by (simp add: loadEntries_def)
  then have "app_store None (handleSaveEntry ?e [])"
    by (rule app_store_save)
  then have a: "app_store None [?e]"
    by (simp only: e)
  note inst = saved_entry_components [of blank_workspace "ascii ''id1''" 7 "Some [legacy_entry]"
      "[?e]"]
  note all = inst [THEN conjunct2, THEN conjunct2, THEN conjunct2, THEN conjunct2, THEN mp, OF a]
  have one: "complete_entry ?e"
    using all by simp
  have "app_store (Some [legacy_entry]) (loadEntries (Some [legacy_entry]) [])"
    by (rule app_store_init)
  then have l0: "app_store (Some [legacy_entry]) [legacy_entry]"
    by (simp add: loadEntries_def)
  have "entryId ?e \<noteq> entryId legacy_entry"
    by (simp add: getCurrentEntry_def blank_workspace_def legacy_entry_def opt_or_else_def
        ascii_def)
  then have "handleSaveEntry ?e [legacy_entry] = [?e, legacy_entry]"
    by (simp add: handleSaveEntry_def)
  moreover have "app_store (Some [legacy_entry]) (handleSaveEntry ?e [legacy_entry])"
    using l0 by (rule app_store_save)
  ultimately have l1: "app_store (Some [legacy_entry]) [?e, legacy_entry]"
    by simp
  note mixed = saved_entry_components [of blank_workspace "ascii ''id1''" 7 "Some [legacy_entry]"
      "[?e, legacy_entry]", THEN conjunct2, THEN conjunct2, THEN conjunct2, THEN conjunct1,
      THEN mp, OF l1]
  have "\<not> complete_entry legacy_entry"
    by (simp add: complete_entry_def legacy_entry_def)
  with mixed have l2: "legacy_entry \<in> set (loadEntries (Some [legacy_entry]) [])"
    by simp
  have none: "generatedImageUrl ?e = None"
    using inst [THEN conjunct2, THEN conjunct2, THEN conjunct1]
    by (simp add: blank_workspace_def truthy_opt_def)
  have some: "generatedImageUrl (getCurrentEntry ?w (ascii ''id1'') 7) = Some (ascii ''data:'')"
    using saved_entry_components [of ?w "ascii ''id1''" 7 None "[]",
        THEN conjunct2, THEN conjunct2, THEN conjunct1]
    by (simp add: blank_workspace_def truthy_opt_def truthy_def ascii_def)
  show ?thesis
    by (intro conjI a one l1 l2 none some)
qed

text \<open>
  Claim C7. The style configuration is carried into export: the entry built by
  \<open>getCurrentEntry\<close>, which is the entry drawn on the exported card and the entry passed
  to the save handler, has the style configuration made of the font family, font size,
  drawing level and writing grade currently selected, and the store after the save holds
  that entry.
\<close>

theorem getCurrentEntry_carries_style:
  "styleConfig (getCurrentEntry ws gid now)
     = Some \<lparr>fontFamily = ws_fontFamily ws, fontSize = ws_fontSize ws,
             drawingLevel = Some (ws_drawingLevel ws),
             writingGrade = Some (ws_writingGrade ws)\<rparr>
   \<and> getCurrentEntry ws gid now \<in> set (handleSaveEntry (getCurrentEntry ws gid now) es)"
proof
  show "styleConfig (getCurrentEntry ws gid now)
     = Some \<lparr>fontFamily = ws_fontFamily ws, fontSize = ws_fontSize ws,
             drawingLevel = Some (ws_drawingLevel ws),
             writingGrade = Some (ws_writingGrade ws)\<rparr>"
    by (rule getCurrentEntry_styleConfig)
  show "getCurrentEntry ws gid now \<in> set (handleSaveEntry (getCurrentEntry ws gid now) es)"
  proof (cases "find (\<lambda>e. entryId e = entryId (getCurrentEntry ws gid now)) es")
    case None
    then show ?thesis
      by (simp add: handleSaveEntry_def)
  next
    case (Some x)
    then have "x \<in> set es" "entryId x = entryId (getCurrentEntry ws gid now)"
      by (auto simp: find_Some_iff)
    then show ?thesis
      using Some by (auto simp: handleSaveEntry_def image_iff)
  qed
qed

text \<open>
  Claim C10. The entry built by \<open>getCurrentEntry\<close> has no empty title, summary, scene
  text or thoughts: an empty title, summary or thoughts is replaced by its fixed
  placeholder; an empty scene text is replaced by the fixed caption when a generated
  image exists and by the generic placeholder otherwise; a text that is not empty is
  kept.
\<close>

theorem getCurrentEntry_no_empty_text:
  "title (getCurrentEntry ws gid now) \<noteq> []
   \<and> summary (getCurrentEntry ws gid now) \<noteq> []
   \<and> favoriteScene (getCurrentEntry ws gid now) \<noteq> []
   \<and> thoughts (getCurrentEntry ws gid now) \<noteq> []
   \<and> title (getCurrentEntry ws gid now)
       = (if ws_title ws = [] then placeholder_title else ws_title ws)
   \<and> summary (getCurrentEntry ws gid now)
       = (if ws_summary ws = [] then placeholder_summary else ws_summary ws)
   \<and> thoughts (getCurrentEntry ws gid now)
       = (if ws_thoughts ws = [] then placeholder_content else ws_thoughts ws)
   \<and> favoriteScene (getCurrentEntry ws gid now)
       = (if ws_favoriteScene ws \<noteq> [] then ws_favoriteScene ws
          else if truthy_opt (ws_generatedImage ws) then scene_caption
          else placeholder_content)"
proof (intro conjI)
  show "title (getCurrentEntry ws gid now) \<noteq> []"
    by (simp add: getCurrentEntry_texts or_else_nonempty placeholders_nonempty)
  show "summary (getCurrentEntry ws gid now) \<noteq> []"
    by (simp add: getCurrentEntry_texts or_else_nonempty placeholders_nonempty)
  show "favoriteScene (getCurrentEntry ws gid now) \<noteq> []"
    by (simp add: getCurrentEntry_texts or_else_nonempty placeholders_nonempty)
  show "thoughts (getCurrentEntry ws gid now) \<noteq> []"
    by (simp add: getCurrentEntry_texts or_else_nonempty placeholders_nonempty)
  show "title (getCurrentEntry ws gid now)
       = (if ws_title ws = [] then placeholder_title else ws_title ws)"
    by (simp add: getCurrentEntry_texts or_else_def truthy_def)
  show "summary (getCurrentEntry ws gid now)
       = (if ws_summary ws = [] then placeholder_summary else ws_summary ws)"
    by (simp add: getCurrentEntry_texts or_else_def truthy_def)
  show "thoughts (getCurrentEntry ws gid now)
       = (if ws_thoughts ws = [] then placeholder_content else ws_thoughts ws)"
    by (simp add: getCurrentEntry_texts or_else_def truthy_def)
  show "favoriteScene (getCurrentEntry ws gid now)
       = (if ws_favoriteScene ws \<noteq> [] then ws_favoriteScene ws
          else if truthy_opt (ws_generatedImage ws) then scene_caption
          else placeholder_content)"
    by (simp add: getCurrentEntry_texts or_else_def truthy_def placeholders_nonempty)
qed

theorem getCurrentEntry_no_empty_text_witness:
  "title (getCurrentEntry blank_workspace (ascii ''id1'') 7) = placeholder_title
   \<and> favoriteScene (getCurrentEntry blank_workspace (ascii ''id1'') 7) = placeholder_content
   \<and> favoriteScene
        (getCurrentEntry (blank_workspace\<lparr>ws_generatedImage := Some (ascii ''data:'')\<rparr>)
           (ascii ''id1'') 7) = scene_caption
   \<and> scene_caption \<noteq> placeholder_content"
proof -
  let ?w = "blank_workspace\<lparr>ws_generatedImage := Some (ascii ''data:'')\<rparr>"
  note b = getCurrentEntry_no_empty_text [of blank_workspace "ascii ''id1''" 7]
  note w = getCurrentEntry_no_empty_text [of ?w "ascii ''id1''" 7]
  have t: "title (getCurrentEntry blank_workspace (ascii ''id1'') 7) = placeholder_title"
    using b by (simp add: blank_workspace_def)
  have s: "favoriteScene (getCurrentEntry blank_workspace (ascii ''id1'') 7) = placeholder_content"
    using b by (simp add: blank_workspace_def truthy_opt_def)
  have c: "favoriteScene (getCurrentEntry ?w (ascii ''id1'') 7) = scene_caption"
    using w by (simp add: blank_workspace_def truthy_opt_def truthy_def ascii_def)
  have d: "scene_caption \<noteq> placeholder_content"
    by (simp add: scene_caption_def placeholder_content_def)
  show ?thesis
    by (intro conjI t s c d)
qed

section \<open>Properties of the response parser\<close>

subsection \<open>\<open>trim\<close>\<close>

lemma all_dropWhile_iff: "(\<forall>x\<in>set (dropWhile P xs). P x) \<longleftrightarrow> (\<forall>x\<in>set xs. P x)"
proof
  assume a: "\<forall>x\<in>set (dropWhile P xs). P x"
  have "dropWhile P xs = []"
  proof (rule ccontr)
    assume n: "dropWhile P xs \<noteq> []"
    then have "\<not> P (hd (dropWhile P xs))"
      by (rule hd_dropWhile)
    moreover from n have "hd (dropWhile P xs) \<in> set (dropWhile P xs)"
      by simp
    ultimately show False
      using a by blast
  qed
  then show "\<forall>x\<in>set xs. P x"
    by (simp add: dropWhile_eq_Nil_conv)
next
  assume "\<forall>x\<in>set xs. P x"
  then show "\<forall>x\<in>set (dropWhile P xs). P x"
    by (auto dest: set_dropWhileD)
qed

lemma trim_eq_Nil: "trim s = [] \<longleftrightarrow> (\<forall>c\<in>set s. is_space c)"
  by (simp add: trim_def dropWhile_eq_Nil_conv all_dropWhile_iff)

lemma trim_space_append: "\<forall>c\<in>set ws. is_space c \<Longrightarrow> trim (ws @ x) = trim x"
  by (simp add: trim_def dropWhile_append2)

lemma trim_dropWhile: "trim (dropWhile is_space s) = trim s"
  by (simp add: trim_def)

lemma trim_head_nonspace: "s \<noteq> [] \<Longrightarrow> \<not> is_space (hd s) \<Longrightarrow> trim s \<noteq> []"
  by (auto simp: trim_eq_Nil)

subsection \<open>The pieces of the matcher\<close>

lemma line_terminator_is_space: "is_line_terminator c \<Longrightarrow> is_space c"
  by (auto simp: is_line_terminator_def is_space_def)

lemma lazy_any_label: "lazy_any (\<lambda>s. prefix l s \<or> s = []) s = Some (up_to l s)"
  by (induction s) auto

lemma lazy_any_end: "lazy_any (\<lambda>s. s = []) s = Some s"
  by (induction s) auto

lemma ws_star_total: "ws_star (\<lambda>s. Some (f s)) s = Some (f (dropWhile is_space s))"
  by (induction s) auto

lemma search_lit_total:
  "l \<noteq> [] \<Longrightarrow> search (lit l (\<lambda>s. Some (f s))) inp = map_option f (after_label l inp)"
  by (induction inp) (auto simp: lit_def)

lemma search_no_head: "c0 \<notin> set s \<Longrightarrow> search (lit (c0 # l') k) s = None"
  by (induction s) (auto simp: lit_def)

lemma up_to_space_append:
  assumes "\<not> is_space c0" and "\<forall>c\<in>set ws. is_space c"
  shows "up_to (c0 # l') (ws @ r) = ws @ up_to (c0 # l') r"
  using assms(2)
proof (induction ws)
  case Nil
  show ?case by simp
next
  case (Cons w ws)
  then have "w \<noteq> c0"
    using assms(1) by auto
  with Cons show ?case
    by simp
qed

lemma trim_up_to_dropWhile:
  assumes "\<not> is_space c0"
  shows "trim (up_to (c0 # l') (dropWhile is_space s)) = trim (up_to (c0 # l') s)"
proof -
  have ws: "\<forall>c\<in>set (takeWhile is_space s). is_space c"
    by (auto dest: set_takeWhileD)
  have "up_to (c0 # l') s = up_to (c0 # l') (takeWhile is_space s @ dropWhile is_space s)"
    by simp
  also have "\<dots> = takeWhile is_space s @ up_to (c0 # l') (dropWhile is_space s)"
    using assms ws by (rule up_to_space_append)
  finally show ?thesis
    using ws by (simp add: trim_space_append)
qed

lemma up_to_dropWhile_head:
  assumes "up_to l (dropWhile is_space s) \<noteq> []"
  shows "\<not> is_space (hd (up_to l (dropWhile is_space s)))"
proof (cases "dropWhile is_space s")
  case Nil
  with assms show ?thesis by simp
next
  case (Cons c cs)
  then have "\<not> is_space c"
    using hd_dropWhile [of is_space s] by simp
  with Cons assms show ?thesis
    by (auto split: if_splits)
qed

subsection \<open>The body fields\<close>

lemma summaryMatch_eq:
  "summaryMatch text
     = map_option (\<lambda>post. up_to scene_label (dropWhile is_space post))
         (after_label summary_label text)"
proof -
  have "lazy_any (\<lambda>s. prefix scene_label s \<or> s = []) = (\<lambda>s. Some (up_to scene_label s))"
    by (rule ext) (rule lazy_any_label)
  moreover have "ws_star (\<lambda>s. Some (up_to scene_label s))
      = (\<lambda>s. Some (up_to scene_label (dropWhile is_space s)))"
    by (rule ext) (rule ws_star_total)
  ultimately show ?thesis
    by (simp add: summaryMatch_def search_lit_total summary_label_def)
qed

lemma sceneMatch_eq:
  "sceneMatch text
     = map_option (\<lambda>post. up_to thoughts_label (dropWhile is_space post))
         (after_label scene_label text)"
proof -
  have "lazy_any (\<lambda>s. prefix thoughts_label s \<or> s = []) = (\<lambda>s. Some (up_to thoughts_label s))"
    by (rule ext) (rule lazy_any_label)
  moreover have "ws_star (\<lambda>s. Some (up_to thoughts_label s))
      = (\<lambda>s. Some (up_to thoughts_label (dropWhile is_space s)))"
    by (rule ext) (rule ws_star_total)
  ultimately show ?thesis
    by (simp add: sceneMatch_def search_lit_total scene_label_def)
qed

lemma thoughtsMatch_eq:
  "thoughtsMatch text = map_option (dropWhile is_space) (after_label thoughts_label text)"
proof -
  have "lazy_any (\<lambda>s. s = []) = (\<lambda>s. Some s)"
    by (rule ext) (rule lazy_any_end)
  moreover have "ws_star (\<lambda>s. Some s) = (\<lambda>s. Some (dropWhile is_space s))"
    by (rule ext) (rule ws_star_total)
  ultimately show ?thesis
    by (simp add: thoughtsMatch_def search_lit_total thoughts_label_def)
qed

lemma scene_label_head: "scene_label = 51109 # [47732, 58]" "\<not> is_space 51109"
  by (simp_all add: scene_label_def is_space_def)

lemma thoughts_label_head: "thoughts_label = 45712 # [45184, 51216, 58]" "\<not> is_space 45712"
  by (simp_all add: thoughts_label_def is_space_def)

text \<open>
  A body group is used when it is not empty, and then its trimmed value is not empty
  either; in both cases the trimmed group is the field of the description.
\<close>

lemma body_field:
  assumes "\<not> is_space c0"
    and "m = map_option (\<lambda>post. up_to (c0 # l') (dropWhile is_space post)) (after_label l text)"
  shows "(if group_truthy m then trim (group1 m) else [])
           = or_empty (field_between l (c0 # l') text)"
    and "group_truthy m \<longleftrightarrow> or_empty (field_between l (c0 # l') text) \<noteq> []"
proof -
  show g: "group_truthy m \<longleftrightarrow> or_empty (field_between l (c0 # l') text) \<noteq> []"
  proof (cases "after_label l text")
    case None
    with assms(2) show ?thesis
      by (simp add: group_truthy_def field_between_def or_empty_def)
  next
    case (Some post)
    let ?g = "up_to (c0 # l') (dropWhile is_space post)"
    have "?g \<noteq> [] \<longleftrightarrow> trim ?g \<noteq> []"
      using up_to_dropWhile_head [of "c0 # l'" post] trim_head_nonspace [of ?g]
      by (auto simp: trim_eq_Nil)
    then show ?thesis
      using Some assms
      by (simp add: group_truthy_def truthy_def field_between_def or_empty_def
          trim_up_to_dropWhile)
  qed
  show "(if group_truthy m then trim (group1 m) else [])
           = or_empty (field_between l (c0 # l') text)"
  proof (cases "group_truthy m")
    case True
    then obtain post where "after_label l text = Some post"
      using assms(2) by (cases "after_label l text") (auto simp: group_truthy_def)
    with True assms show ?thesis
      by (simp add: group1_def field_between_def or_empty_def trim_up_to_dropWhile)
  next
    case False
    with g show ?thesis by simp
  qed
qed

subsection \<open>The title\<close>

lemma dot_plus_set: "dot_plus s = Some g \<Longrightarrow> g \<noteq> [] \<and> set g \<subseteq> set s"
  by (auto simp: dot_plus_def Let_def split: if_splits dest: set_takeWhileD)

lemma dot_plus_Cons_None: "dot_plus (c # cs) = None \<longleftrightarrow> is_line_terminator c"
  by (simp add: dot_plus_def)

lemma ws_star_dot_plus_set: "ws_star dot_plus s = Some g \<Longrightarrow> g \<noteq> [] \<and> set g \<subseteq> set s"
proof (induction s)
  case Nil
  then show ?case
    by (simp add: dot_plus_def)
next
  case (Cons c cs)
  show ?case
  proof (cases "is_space c \<and> ws_star dot_plus cs \<noteq> None")
    case True
    with Cons show ?thesis by auto
  next
    case False
    with Cons.prems have "dot_plus (c # cs) = Some g"
      by (auto split: if_splits option.splits)
    then show ?thesis
      by (rule dot_plus_set)
  qed
qed

lemma ws_star_dot_plus_text:
  "dropWhile is_space s \<noteq> [] \<Longrightarrow>
     ws_star dot_plus s
       = Some (takeWhile (\<lambda>c. \<not> is_line_terminator c) (dropWhile is_space s))"
proof (induction s)
  case Nil
  then show ?case by simp
next
  case (Cons c cs)
  show ?case
  proof (cases "is_space c")
    case True
    with Cons show ?thesis by simp
  next
    case False
    then have "\<not> is_line_terminator c"
      by (auto dest: line_terminator_is_space)
    with False show ?thesis
      by (simp add: dot_plus_def)
  qed
qed

lemma ws_star_dot_plus_blank:
  "dropWhile is_space s = [] \<Longrightarrow>
     ws_star dot_plus s = None \<longleftrightarrow> (\<forall>c\<in>set s. is_line_terminator c)"
proof (induction s)
  case Nil
  show ?case
    by (simp add: dot_plus_def)
next
  case (Cons c cs)
  then have sp: "is_space c" and rest: "dropWhile is_space cs = []"
    by (auto split: if_splits)
  from Cons.IH [OF rest] sp show ?case
    by (cases "ws_star dot_plus cs") (auto simp: dot_plus_Cons_None)
qed

lemma ws_star_dot_plus_None:
  "ws_star dot_plus s = None \<longleftrightarrow> (\<forall>c\<in>set s. is_line_terminator c)"
proof (cases "dropWhile is_space s = []")
  case True
  then show ?thesis
    by (rule ws_star_dot_plus_blank)
next
  case False
  then have "ws_star dot_plus s \<noteq> None"
    by (simp add: ws_star_dot_plus_text)
  moreover from False obtain c where "c \<in> set s" "\<not> is_space c"
    by (auto simp: dropWhile_eq_Nil_conv)
  then have "\<not> (\<forall>c\<in>set s. is_line_terminator c)"
    by (auto dest: line_terminator_is_space)
  ultimately show ?thesis
    by blast
qed

text \<open>
  When the pattern fails at the first occurrence of the title label, only line
  terminators follow, so the label cannot occur again: the match, if any, is at the
  first occurrence.
\<close>

lemma titleMatch_eq:
  "titleMatch inp
     = (case after_label title_label inp of None \<Rightarrow> None | Some post \<Rightarrow> ws_star dot_plus post)"
  unfolding titleMatch_def
proof (induction inp)
  case Nil
  show ?case
    by (simp add: lit_def title_label_def dot_plus_def)
next
  case (Cons c cs)
  show ?case
  proof (cases "prefix title_label (c # cs)")
    case False
    with Cons show ?thesis
      by (simp add: lit_def)
  next
    case True
    then obtain post where split: "c # cs = title_label @ post"
      by (auto simp: prefix_def)
    then have post: "drop (length title_label) (c # cs) = post"
      by simp
    show ?thesis
    proof (cases "ws_star dot_plus post")
      case (Some g)
      with True post show ?thesis
        by (simp add: lit_def)
    next
      case None
      then have lt: "\<forall>x\<in>set post. is_line_terminator x"
        by (simp add: ws_star_dot_plus_None)
      from split have cs: "cs = [47785, 58] @ post"
        by (simp add: title_label_def)
      have "51228 \<notin> set cs"
        using lt by (auto simp: cs is_line_terminator_def)
      then have "search (lit (51228 # [47785, 58]) (ws_star dot_plus)) cs = None"
        by (rule search_no_head)
      then have tail: "search (lit title_label (ws_star dot_plus)) cs = None"
        by (simp add: title_label_def)
      have "lit title_label (ws_star dot_plus) (c # cs) = None"
        using True post None by (simp add: lit_def)
      with tail True post None show ?thesis
        by simp
    qed
  qed
qed

lemma titleMatch_None:
  "titleMatch inp = None
     \<longleftrightarrow> (\<forall>post. after_label title_label inp = Some post \<longrightarrow> (\<forall>c\<in>set post. is_line_terminator c))"
  by (cases "after_label title_label inp") (simp_all add: titleMatch_eq ws_star_dot_plus_None)

text \<open>
  The title after the first fallback step: the trimmed group when there is a match, the
  manual title (or nothing) when there is none.
\<close>

lemma title_field:
  "(if group_truthy (titleMatch inp) then trim (group1 (titleMatch inp)) else t0)
     = (if or_empty (title_line inp) \<noteq> [] then or_empty (title_line inp)
        else if titleMatch inp = None then t0 else [])"
proof (cases "after_label title_label inp")
  case None
  then show ?thesis
    by (simp add: titleMatch_eq title_line_def or_empty_def group_truthy_def)
next
  case (Some post)
  show ?thesis
  proof (cases "dropWhile is_space post = []")
    case False
    let ?g = "takeWhile (\<lambda>c. \<not> is_line_terminator c) (dropWhile is_space post)"
    from False have m: "titleMatch inp = Some ?g"
      using Some by (simp add: titleMatch_eq ws_star_dot_plus_text)
    from False have h: "\<not> is_space (hd (dropWhile is_space post))"
      by (rule hd_dropWhile)
    then have "\<not> is_line_terminator (hd (dropWhile is_space post))"
      by (auto dest: line_terminator_is_space)
    with False have "?g \<noteq> []" "hd ?g = hd (dropWhile is_space post)"
      by (cases "dropWhile is_space post"; simp)+
    with h have "trim ?g \<noteq> []" "?g \<noteq> []"
      by (simp_all add: trim_head_nonspace)
    with m Some show ?thesis
      by (simp add: title_line_def or_empty_def group_truthy_def group1_def truthy_def)
  next
    case True
    have "title_line inp
        = Some (trim (takeWhile (\<lambda>c. \<not> is_line_terminator c) (dropWhile is_space post)))"
      using Some by (simp add: title_line_def)
    also have "\<dots> = Some (trim [])"
      by (simp only: True takeWhile.simps)
    finally have line: "or_empty (title_line inp) = []"
      by (simp add: or_empty_def trim_def)
    from True have sp: "\<forall>c\<in>set post. is_space c"
      by (simp add: dropWhile_eq_Nil_conv)
    show ?thesis
    proof (cases "titleMatch inp")
      case None
      with line show ?thesis
        by (simp add: group_truthy_def)
    next
      case (Some g)
      then have "ws_star dot_plus post = Some g"
        using \<open>after_label title_label inp = Some post\<close> by (simp add: titleMatch_eq)
      then have "g \<noteq> []" "set g \<subseteq> set post"
        by (auto dest: ws_star_dot_plus_set)
      with sp have "trim g = []"
        by (auto simp: trim_eq_Nil)
      with Some line \<open>g \<noteq> []\<close> show ?thesis
        by (simp add: group_truthy_def group1_def truthy_def)
    qed
  qed
qed

lemma opt_or_else_fallback:
  "b \<noteq> [] \<Longrightarrow> (if \<not> truthy (opt_or_else a []) then b else opt_or_else a []) = opt_or_else a b"
  by (cases a) (auto simp: opt_or_else_def or_else_def truthy_def)

lemma fallbacks_nonempty: "fallback_title \<noteq> []" "fallback_summary \<noteq> []"
  by (simp_all add: fallback_title_def fallback_summary_def)

lemma opt_or_else_nonempty: "b \<noteq> [] \<Longrightarrow> opt_or_else a b \<noteq> []"
  by (cases a) (auto simp: opt_or_else_def or_else_def truthy_def)

subsection \<open>The four fields of the result\<close>

lemma parse_title:
  "result_title (analyzeStoryLink_parse manualTitle inp)
     = (if or_empty (title_line inp) \<noteq> [] then or_empty (title_line inp)
        else if titleMatch inp = None then opt_or_else manualTitle fallback_title
        else fallback_title)"
proof -
  have "result_title (analyzeStoryLink_parse manualTitle inp)
      = (let t1 = (if group_truthy (titleMatch inp) then trim (group1 (titleMatch inp))
                   else opt_or_else manualTitle [])
         in if \<not> truthy t1 then fallback_title else t1)"
    by (simp add: analyzeStoryLink_parse_def Let_def)
  also have "\<dots> = (let t1 = (if or_empty (title_line inp) \<noteq> [] then or_empty (title_line inp)
        else if titleMatch inp = None then opt_or_else manualTitle [] else [])
         in if \<not> truthy t1 then fallback_title else t1)"
    by (simp only: title_field)
  finally have step: "result_title (analyzeStoryLink_parse manualTitle inp)
      = (let t1 = (if or_empty (title_line inp) \<noteq> [] then or_empty (title_line inp)
        else if titleMatch inp = None then opt_or_else manualTitle [] else [])
         in if \<not> truthy t1 then fallback_title else t1)" .
  show ?thesis
  proof (cases "or_empty (title_line inp) \<noteq> []")
    case True
    then show ?thesis
      by (simp add: step Let_def truthy_def)
  next
    case blank: False
    show ?thesis
    proof (cases "titleMatch inp = None")
      case True
      with blank show ?thesis
        by (simp add: step Let_def opt_or_else_fallback [OF fallbacks_nonempty(1)])
    next
      case False
      show ?thesis
        using blank by (simp add: step Let_def truthy_def False)
    qed
  qed
qed

lemma parse_summary:
  "result_summary (analyzeStoryLink_parse manualTitle inp)
     = (if or_empty (field_between summary_label scene_label inp) \<noteq> []
        then or_empty (field_between summary_label scene_label inp)
        else if titleMatch inp = None \<and> 10 < length inp then inp
        else fallback_summary)"
proof -
  note b = body_field [OF scene_label_head(2), of "summaryMatch inp" "[47732, 58]" summary_label inp,
      folded scene_label_head(1), OF summaryMatch_eq]
  have "10 < length inp \<Longrightarrow> inp \<noteq> []"
    by auto
  then show ?thesis
    using b by (auto simp: analyzeStoryLink_parse_def Let_def truthy_def)
qed

lemma parse_scene:
  "recommendedScene (analyzeStoryLink_parse manualTitle inp)
     = or_empty (field_between scene_label thoughts_label inp)"
proof -
  note b = body_field [OF thoughts_label_head(2), of "sceneMatch inp" "[45184, 51216, 58]" scene_label inp,
      folded thoughts_label_head(1), OF sceneMatch_eq]
  show ?thesis
    using b(1) by (simp add: analyzeStoryLink_parse_def Let_def)
qed

lemma parse_thoughts:
  "recommendedThoughts (analyzeStoryLink_parse manualTitle inp)
     = or_empty (field_to_end thoughts_label inp)"
proof (cases "after_label thoughts_label inp")
  case None
  then show ?thesis
    by (simp add: analyzeStoryLink_parse_def Let_def thoughtsMatch_eq group_truthy_def
        field_to_end_def or_empty_def)
next
  case (Some post)
  have "dropWhile is_space post = [] \<Longrightarrow> trim post = []"
    by (simp add: trim_eq_Nil dropWhile_eq_Nil_conv)
  with Some show ?thesis
    by (simp add: analyzeStoryLink_parse_def Let_def thoughtsMatch_eq group_truthy_def
        group1_def truthy_def field_to_end_def or_empty_def trim_dropWhile)
qed

lemma parse_title_nonempty: "result_title (analyzeStoryLink_parse manualTitle inp) \<noteq> []"
  by (simp add: parse_title opt_or_else_nonempty fallbacks_nonempty)

lemma parse_summary_nonempty: "result_summary (analyzeStoryLink_parse manualTitle inp) \<noteq> []"
proof -
  have "10 < length inp \<Longrightarrow> inp \<noteq> []"
    by auto
  then show ?thesis
    by (simp add: parse_summary fallbacks_nonempty)
qed

text \<open>
  Claim C1, as stated, fails: it promises fallback text for every field whose extraction
  fails. For a response without labels the scene and thoughts patterns do not match and
  the two fields of the result are the empty string.
\<close>

theorem parse_scene_thoughts_counterexample:
  "sceneMatch unformatted_response = None
   \<and> thoughtsMatch unformatted_response = None
   \<and> recommendedScene (analyzeStoryLink_parse None unformatted_response) = []
   \<and> recommendedThoughts (analyzeStoryLink_parse None unformatted_response) = []"
  by code_simp

text \<open>
  Claim C1, amended. For every response text the parsing step of \<open>analyzeStoryLink\<close>
  extracts each field at the first occurrence of its label: the title is the rest of the
  line after its label and the white space behind it, the summary runs to the next scene
  label or the end of the text, the scene to the next thoughts label or the end of the
  text, the thoughts to the end of the text, each trimmed. A title that comes out empty
  is replaced by the manual title, when no title pattern matched and a manual title was
  given, and by a fixed text otherwise; a summary that comes out empty is replaced by the
  whole response, when no title pattern matched and the response is longer than 10, and
  by a fixed text otherwise; so the title and the summary are never empty. A scene or
  thoughts field that comes out empty stays the empty string. The title pattern fails
  exactly when every occurrence of the title label is followed by line terminators only.
\<close>

theorem analyzeStoryLink_parse_fields:
  "result_title (analyzeStoryLink_parse manualTitle response)
     = (if or_empty (title_line response) \<noteq> [] then or_empty (title_line response)
        else if titleMatch response = None then opt_or_else manualTitle fallback_title
        else fallback_title)
   \<and> result_summary (analyzeStoryLink_parse manualTitle response)
     = (if or_empty (field_between summary_label scene_label response) \<noteq> []
        then or_empty (field_between summary_label scene_label response)
        else if titleMatch response = None \<and> 10 < length response then response
        else fallback_summary)
   \<and> recommendedScene (analyzeStoryLink_parse manualTitle response)
     = or_empty (field_between scene_label thoughts_label response)
   \<and> recommendedThoughts (analyzeStoryLink_parse manualTitle response)
     = or_empty (field_to_end thoughts_label response)
   \<and> result_title (analyzeStoryLink_parse manualTitle response) \<noteq> []
   \<and> result_summary (analyzeStoryLink_parse manualTitle response) \<noteq> []
   \<and> (titleMatch response = None
        \<longleftrightarrow> (\<forall>post. after_label title_label response = Some post
              \<longrightarrow> (\<forall>c\<in>set post. is_line_terminator c)))"
  by (intro conjI parse_title parse_summary parse_scene parse_thoughts
      parse_title_nonempty parse_summary_nonempty titleMatch_None)

theorem analyzeStoryLink_parse_fields_witness:
  "or_empty (title_line sample_response) \<noteq> []
   \<and> analyzeStoryLink_parse None sample_response
       = \<lparr>result_title = ascii ''Three Pigs'', result_summary = ascii ''They build.'',
          recommendedScene = ascii ''The wolf blows.'',
          recommendedThoughts = ascii ''Work hard.''\<rparr>
   \<and> after_label title_label unformatted_response = None
   \<and> titleMatch unformatted_response = None
   \<and> 10 < length unformatted_response
   \<and> result_summary (analyzeStoryLink_parse (Some (ascii ''Hint'')) unformatted_response)
       = unformatted_response
   \<and> result_title (analyzeStoryLink_parse (Some (ascii ''Hint'')) unformatted_response)
       = ascii ''Hint''"
proof -
  note s = analyzeStoryLink_parse_fields [of None sample_response]
  note u = analyzeStoryLink_parse_fields [of "Some (ascii ''Hint'')" unformatted_response]
  have t: "title_line sample_response = Some (ascii ''Three Pigs'')"
    by code_simp
  have b: "field_between summary_label scene_label sample_response = Some (ascii ''They build.'')"
    by code_simp
  have c: "field_between scene_label thoughts_label sample_response
      = Some (ascii ''The wolf blows.'')"
    by code_simp
  have h: "field_to_end thoughts_label sample_response = Some (ascii ''Work hard.'')"
    by code_simp
  have ne: "ascii ''Three Pigs'' \<noteq> []" "ascii ''They build.'' \<noteq> []"
    by (simp_all add: ascii_def)
  have w1: "or_empty (title_line sample_response) \<noteq> []"
    using ne by (simp add: t or_empty_def)
  have f1: "result_title (analyzeStoryLink_parse None sample_response) = ascii ''Three Pigs''"
    using s [THEN conjunct1] ne by (simp add: t or_empty_def)
  have f2: "result_summary (analyzeStoryLink_parse None sample_response) = ascii ''They build.''"
    using s [THEN conjunct2, THEN conjunct1] ne by (simp add: b or_empty_def)
  have f3: "recommendedScene (analyzeStoryLink_parse None sample_response)
      = ascii ''The wolf blows.''"
    using s [THEN conjunct2, THEN conjunct2, THEN conjunct1] by (simp add: c or_empty_def)
  have f4: "recommendedThoughts (analyzeStoryLink_parse None sample_response)
      = ascii ''Work hard.''"
    using s [THEN conjunct2, THEN conjunct2, THEN conjunct2, THEN conjunct1]
    by (simp add: h or_empty_def)
  have w2: "analyzeStoryLink_parse None sample_response
       = \<lparr>result_title = ascii ''Three Pigs'', result_summary = ascii ''They build.'',
          recommendedScene = ascii ''The wolf blows.'',
          recommendedThoughts = ascii ''Work hard.''\<rparr>"
    using f1 f2 f3 f4 by (cases "analyzeStoryLink_parse None sample_response") simp
  have w3: "after_label title_label unformatted_response = None"
    by code_simp
  have w4: "titleMatch unformatted_response = None"
    using u [THEN conjunct2, THEN conjunct2, THEN conjunct2, THEN conjunct2, THEN conjunct2,
        THEN conjunct2]
    by (simp add: w3)
  have w5: "10 < length unformatted_response"
    by (simp add: unformatted_response_def ascii_def)
  have tl: "title_line unformatted_response = None"
    by (simp add: title_line_def w3)
  have fb: "field_between summary_label scene_label unformatted_response = None"
    by code_simp
  have w6: "result_summary (analyzeStoryLink_parse (Some (ascii ''Hint'')) unformatted_response)
       = unformatted_response"
    using u [THEN conjunct2, THEN conjunct1] w4 w5 by (simp add: fb or_empty_def)
  have w7: "result_title (analyzeStoryLink_parse (Some (ascii ''Hint'')) unformatted_response)
       = ascii ''Hint''"
    using u [THEN conjunct1] w4
    by (simp add: tl or_empty_def opt_or_else_def or_else_def truthy_def ascii_def)
  show ?thesis
    by (intro conjI w1 w2 w3 w4 w5 w6 w7)
qed

section \<open>Properties of the service operations\<close>












subsection \<open>The prompts\<close>











subsection \<open>Numbers in the prompt\<close>










lemma prompt_numbers_example:
  "number_to_string 3 = ascii ''3''" "number_to_string 12 = ascii ''12''"
  by code_simp+

end
